theory Spec2Isabelle
  imports Main
begin

section \<open>JavaScript values, objects and errors\<close>

text \<open>
  The wrapper \<^verbatim>\<open>src/index.js\<close> is dynamically typed. A property of the symbol struct
  holds a primitive value: \<open>JNum n\<close> is the number whose value is the integer \<open>n\<close>
  (a double holds every integer up to \<open>2 ^ 53\<close> in size, and beyond that the multiples
  of its spacing), \<open>JStr\<close> a string with one \<open>char\<close> per code unit below 256.
\<close>

datatype jsval = JUndefined | JNull | JBool bool | JNum int | JNaN | JStr string

text \<open>
  The symbol struct is a plain object with own data properties: a key is either absent
  or bound to a value (which may be \<open>JUndefined\<close>). The functions below mutate the
  caller's object; the model returns the object as it is left.
\<close>

type_synonym symbol = "string \<rightharpoonup> jsval"

definition hasOwnProperty :: "symbol \<Rightarrow> string \<Rightarrow> bool" where
  "hasOwnProperty obj k = (obj k \<noteq> None)"

text \<open>Reading \<^verbatim>\<open>obj.k\<close>: an absent property reads as \<^verbatim>\<open>undefined\<close>.\<close>

definition getProp :: "symbol \<Rightarrow> string \<Rightarrow> jsval" where
  "getProp obj k = (case obj k of None \<Rightarrow> JUndefined | Some v \<Rightarrow> v)"

text \<open>ToBoolean, as used by \<^verbatim>\<open>? :\<close> and \<^verbatim>\<open>||\<close>.\<close>

fun truthy :: "jsval \<Rightarrow> bool" where
  "truthy JUndefined = False"
| "truthy JNull = False"
| "truthy (JBool b) = b"
| "truthy (JNum n) = (n \<noteq> 0)"
| "truthy JNaN = False"
| "truthy (JStr s) = (s \<noteq> [])"

datatype js_error = Error string | TypeError

text \<open>
  The enumerations \<^verbatim>\<open>./enums/encoding\<close> and \<^verbatim>\<open>./enums/output\<close> are required by
  \<^verbatim>\<open>index.js\<close> but are not part of the sources; the three values the wrapper reads
  from them are parameters of the model.
\<close>

record enums =
  Encoding_DATA_MODE :: jsval
  Output_values :: "string list"
  Output_PNG :: string

section \<open>defaultSymbol and validateSymbol\<close>

text \<open>The object literal \<^verbatim>\<open>defaultSymbol\<close>, in the order \<^verbatim>\<open>Object.keys\<close> lists it.\<close>

definition defaultSymbol :: "enums \<Rightarrow> (string \<times> jsval) list" where
  "defaultSymbol E =
    [(''symbology'', JNum 20),
     (''height'', JNum 50),
     (''whitespaceWidth'', JNum 0),
     (''borderWidth'', JNum 0),
     (''outputOptions'', JNum (- 1)),
     (''foregroundColor'', JStr ''000000''),
     (''backgroundColor'', JStr ''ffffff''),
     (''fileName'', JStr ''out.bmp''),
     (''scale'', JNum 1),
     (''option1'', JNum (- 1)),
     (''option2'', JNum (- 1)),
     (''option3'', JNum (- 1)),
     (''showHumanReadableText'', JBool True),
     (''encoding'', Encoding_DATA_MODE E),
     (''eci'', JNum 0),
     (''primary'', JStr [])]"

definition keys :: "enums \<Rightarrow> string list" where
  "keys E = map fst (defaultSymbol E)"

text \<open>
  The \<^verbatim>\<open>for\<close> loop of \<^verbatim>\<open>validateSymbol\<close> over \<^verbatim>\<open>keys\<close>. Each iteration calls
  \<^verbatim>\<open>symbologyStruct.hasOwnProperty\<close>; when the struct has an own property of that
  name, the call hits a value that is not a function and throws a TypeError. The
  result is the struct as the loop leaves it and the error thrown, if any.
\<close>

fun validateSymbol_loop :: "enums \<Rightarrow> string list \<Rightarrow> symbol \<Rightarrow> symbol \<times> js_error option" where
  "validateSymbol_loop E [] symbologyStruct = (symbologyStruct, None)"
| "validateSymbol_loop E (k # ks) symbologyStruct =
     (if hasOwnProperty symbologyStruct ''hasOwnProperty'' then (symbologyStruct, Some TypeError)
      else if \<not> hasOwnProperty symbologyStruct k
        then validateSymbol_loop E ks (symbologyStruct(k \<mapsto> getProp (map_of (defaultSymbol E)) k))
        else validateSymbol_loop E ks symbologyStruct)"

definition validateSymbol :: "enums \<Rightarrow> symbol \<Rightarrow> symbol \<times> js_error option" where
  "validateSymbol E symbologyStruct = validateSymbol_loop E (keys E) symbologyStruct"

section \<open>createSymbology\<close>

text \<open>
  The object the native function returns: \<^verbatim>\<open>res.code\<close>, \<^verbatim>\<open>res.message\<close>,
  \<^verbatim>\<open>res.encodedData\<close>, \<^verbatim>\<open>res.width\<close>, \<^verbatim>\<open>res.height\<close>. The native library is not part
  of the sources: it is a parameter, a module that maps a function name and the
  positional arguments to a result or to a thrown error.
\<close>

record native_result =
  res_code :: int
  res_message :: string
  res_encodedData :: "nat list"
  res_width :: nat
  res_height :: nat

type_synonym native = "string \<Rightarrow> jsval list \<Rightarrow> js_error + native_result"

text \<open>
  What a call leaves behind: the caller's symbol struct after the call, the argument
  lists of the native invocations made, and what the call returned or threw.
\<close>

record 'a run =
  sym :: symbol
  calls :: "jsval list list"
  outcome :: "js_error + 'a"

definition endsWith :: "string \<Rightarrow> string \<Rightarrow> bool" where
  "endsWith str suf = (length suf \<le> length str \<and> drop (length str - length suf) str = suf)"

text \<open>\<^verbatim>\<open>fileName.replace(/\.png$/g, '.bmp')\<close>: the pattern only matches at the end.\<close>

definition replace_png_bmp :: "string \<Rightarrow> string" where
  "replace_png_bmp fileName =
     (if endsWith fileName ''.png'' then take (length fileName - 4) fileName @ ''.bmp''
      else fileName)"

text \<open>
  The arguments are evaluated left to right before the native function is entered;
  \<^verbatim>\<open>fileName.replace\<close> throws a TypeError unless \<^verbatim>\<open>fileName\<close> is a string.
\<close>

definition createSymbology :: "enums \<Rightarrow> native \<Rightarrow> symbol \<Rightarrow> jsval \<Rightarrow> string \<Rightarrow> native_result run" where
  "createSymbology E symbology symbologyStruct barcodeData fnName =
     (case validateSymbol E symbologyStruct of
        (s, Some e) \<Rightarrow> \<lparr>sym = s, calls = [], outcome = Inl e\<rparr>
      | (s, None) \<Rightarrow>
          (case getProp s ''fileName'' of
             JStr fileName \<Rightarrow>
               (let args =
                  [barcodeData,
                   getProp s ''symbology'',
                   getProp s ''height'',
                   getProp s ''whitespaceWidth'',
                   getProp s ''borderWidth'',
                   getProp s ''outputOptions'',
                   getProp s ''backgroundColor'',
                   getProp s ''foregroundColor'',
                   JStr (replace_png_bmp fileName),
                   getProp s ''scale'',
                   getProp s ''option1'',
                   getProp s ''option2'',
                   getProp s ''option3'',
                   JNum (if truthy (getProp s ''showHumanReadableText'') then 1 else 0),
                   (if truthy (getProp s ''text'') then getProp s ''text'' else barcodeData),
                   getProp s ''encoding'',
                   getProp s ''eci'',
                   getProp s ''primary'']
                in \<lparr>sym = s, calls = [args], outcome = symbology fnName args\<rparr>)
           | _ \<Rightarrow> \<lparr>sym = s, calls = [], outcome = Inl TypeError\<rparr>))"

section \<open>pngRender\<close>

text \<open>
  The image object of the external package \<^verbatim>\<open>pngjs-image\<close> is modelled by what
  \<^verbatim>\<open>pngRender\<close> tells it: its dimensions and, for each coordinate, the colour object
  last passed to \<^verbatim>\<open>setAt\<close>. A colour component read beyond the end of the bitmap is
  \<^verbatim>\<open>undefined\<close>, here \<open>None\<close>. Dimensions are pixel counts.
\<close>

record color =
  red :: "nat option"
  green :: "nat option"
  blue :: "nat option"
  alpha :: nat

record image =
  img_width :: nat
  img_height :: nat
  pixels :: "nat \<times> nat \<rightharpoonup> color"

definition createImage :: "nat \<Rightarrow> nat \<Rightarrow> image" where
  "createImage width height = \<lparr>img_width = width, img_height = height, pixels = Map.empty\<rparr>"

definition setAt :: "image \<Rightarrow> nat \<Rightarrow> nat \<Rightarrow> color \<Rightarrow> image" where
  "setAt img x y c = img\<lparr>pixels := (pixels img)((x, y) \<mapsto> c)\<rparr>"

text \<open>\<^verbatim>\<open>bitmap[i]\<close>\<close>

definition at :: "nat list \<Rightarrow> nat \<Rightarrow> nat option" where
  "at bitmap i = (if i < length bitmap then Some (bitmap ! i) else None)"

text \<open>The inner loop over \<^verbatim>\<open>x\<close>; the state is the image and the read index \<^verbatim>\<open>i\<close>.\<close>

function pngRender_x :: "nat list \<Rightarrow> nat \<Rightarrow> nat \<Rightarrow> nat \<Rightarrow> image \<times> nat \<Rightarrow> image \<times> nat" where
  "pngRender_x bitmap width y x (img, i) =
     (if x < width
      then pngRender_x bitmap width y (x + 1)
             (setAt img x y
                \<lparr>red = at bitmap i, green = at bitmap (i + 1), blue = at bitmap (i + 2),
                 alpha = 200\<rparr>,
              i + 3)
      else (img, i))"
  by pat_completeness auto
termination
  by (relation "measure (\<lambda>(bitmap, width, y, x, st). width - x)") auto

text \<open>The outer loop over \<^verbatim>\<open>y\<close>.\<close>

function pngRender_y :: "nat list \<Rightarrow> nat \<Rightarrow> nat \<Rightarrow> nat \<Rightarrow> image \<times> nat \<Rightarrow> image \<times> nat" where
  "pngRender_y bitmap width height y st =
     (if y < height
      then pngRender_y bitmap width height (y + 1) (pngRender_x bitmap width y 0 st)
      else st)"
  by pat_completeness auto
termination
  by (relation "measure (\<lambda>(bitmap, width, height, y, st). height - y)") auto

declare pngRender_x.simps [simp del] pngRender_y.simps [simp del]

definition pngRender_run :: "nat list \<Rightarrow> nat \<Rightarrow> nat \<Rightarrow> image \<times> nat" where
  "pngRender_run bitmap width height =
     pngRender_y bitmap width height 0 (createImage width height, 0)"

definition pngRender :: "nat list \<Rightarrow> nat \<Rightarrow> nat \<Rightarrow> image" where
  "pngRender bitmap width height = fst (pngRender_run bitmap width height)"

section \<open>callManagedLibrary and createStream\<close>

text \<open>
  The sign test \<^verbatim>\<open>parseInt(v, 10) > 0\<close>. \<^verbatim>\<open>parseInt\<close> converts its argument to a string,
  drops leading white space, reads an optional sign and the longest run of decimal
  digits; no digit gives NaN. For a number the result has the number's sign.
\<close>

definition StrWhiteSpaceChar :: "char \<Rightarrow> bool" where
  "StrWhiteSpaceChar c =
     (c \<in> set [CHR 0x09, CHR 0x0A, CHR 0x0B, CHR 0x0C, CHR 0x0D, CHR 0x20, CHR 0xA0])"

definition isDigit :: "char \<Rightarrow> bool" where
  "isDigit c = (c \<in> set ''0123456789'')"

definition parseInt_gt_0_str :: "string \<Rightarrow> bool" where
  "parseInt_gt_0_str inputString =
     (let S = dropWhile StrWhiteSpaceChar inputString;
          neg = (case S of c # _ \<Rightarrow> c = CHR ''-'' | [] \<Rightarrow> False);
          S' = (case S of c # cs \<Rightarrow> if c = CHR ''+'' \<or> c = CHR ''-'' then cs else S | [] \<Rightarrow> S);
          Z = takeWhile isDigit S'
      in \<not> neg \<and> (\<exists>c \<in> set Z. c \<noteq> CHR ''0''))"

fun parseInt_gt_0 :: "jsval \<Rightarrow> bool" where
  "parseInt_gt_0 (JNum n) = (0 < n)"
| "parseInt_gt_0 (JStr s) = parseInt_gt_0_str s"
| "parseInt_gt_0 _ = False"

text \<open>
  Numbers are IEEE doubles, so a sum is rounded to the nearest double, ties to the
  even mantissa. An integer of at most \<open>2 ^ 53\<close> in size is a double; a larger one
  with \<open>k + 1\<close> binary digits lies between doubles that are \<open>2 ^ (k - 52)\<close> apart.
\<close>

function bit_length :: "int \<Rightarrow> nat" where
  "bit_length a = (if a \<le> 0 then 0 else Suc (bit_length (a div 2)))"
  by pat_completeness auto
termination
  by (relation "measure nat") auto

declare bit_length.simps [simp del]

definition round_double :: "int \<Rightarrow> int" where
  "round_double m =
     (if \<bar>m\<bar> \<le> 2 ^ 53 then m
      else
        (let a = \<bar>m\<bar>;
             u = 2 ^ (bit_length a - 53);
             q = a div u;
             r = a mod u;
             q' = (if 2 * r < u then q
                   else if u < 2 * r then q + 1
                   else if even q then q else q + 1)
         in sgn m * (q' * u)))"

text \<open>\<^verbatim>\<open>v + 8\<close>: addition of doubles, or concatenation when \<^verbatim>\<open>v\<close> is a string.\<close>

fun plus_8 :: "jsval \<Rightarrow> jsval" where
  "plus_8 (JNum n) = JNum (round_double (n + 8))"
| "plus_8 (JStr s) = JStr (s @ ''8'')"
| "plus_8 JUndefined = JNaN"
| "plus_8 JNaN = JNaN"
| "plus_8 JNull = JNum 8"
| "plus_8 (JBool b) = JNum (if b then 9 else 8)"

text \<open>
  The objects a promise settles with. The rejection value has exactly the
  properties \<^verbatim>\<open>message\<close> and \<^verbatim>\<open>code\<close>; the resolution value has these and
  \<^verbatim>\<open>data\<close>, \<^verbatim>\<open>width\<close>, \<^verbatim>\<open>height\<close>. A promise that is never resolved nor rejected
  is \<open>Pending\<close>.
\<close>

record status_obj =
  message :: string
  code :: int

record 'd stream_obj = status_obj +
  data :: 'd
  width :: nat
  height :: nat

datatype 'd promise = Resolved "'d stream_obj" | Rejected status_obj | Pending

text \<open>
  The block of \<^verbatim>\<open>callManagedLibrary\<close> run for an output type other than PNG: it sets
  \<^verbatim>\<open>symbol.fileName\<close> and then \<^verbatim>\<open>symbol.outputOptions\<close>.
\<close>

definition set_stdout_options :: "symbol \<Rightarrow> string \<Rightarrow> symbol" where
  "set_stdout_options symbol outputType =
     (let s = symbol(''fileName'' \<mapsto> JStr (''out.'' @ outputType))
      in if parseInt_gt_0 (getProp s ''outputOptions'')
         then s(''outputOptions'' \<mapsto> plus_8 (getProp s ''outputOptions''))
         else s(''outputOptions'' \<mapsto> JNum 8))"

text \<open>
  The end of \<^verbatim>\<open>callManagedLibrary\<close>: \<^verbatim>\<open>Promise.resolve\<close> when \<^verbatim>\<open>res.code <= 2\<close>, else
  \<^verbatim>\<open>Promise.reject\<close>.
\<close>

definition settle :: "native_result \<Rightarrow> (nat list) promise" where
  "settle res =
     (if res_code res \<le> 2
      then Resolved \<lparr>message = res_message res, code = res_code res,
                     data = res_encodedData res, width = res_width res,
                     height = res_height res\<rparr>
      else Rejected \<lparr>message = res_message res, code = res_code res\<rparr>)"

definition callManagedLibrary ::
  "enums \<Rightarrow> native \<Rightarrow> symbol \<Rightarrow> jsval \<Rightarrow> string \<Rightarrow> jsval \<Rightarrow> (nat list) promise run" where
  "callManagedLibrary E symbology symbol barcodeData outputType isStdout =
     (if outputType \<notin> set (Output_values E)
      then \<lparr>sym = symbol, calls = [],
            outcome = Inl (Error (''Invalid output type: '' @ outputType))\<rparr>
      else
        (let symbol' = (if outputType \<noteq> Output_PNG E
                        then set_stdout_options symbol outputType else symbol);
             r = createSymbology E symbology symbol' barcodeData ''createStream''
         in \<lparr>sym = sym r, calls = calls r,
              outcome = (case outcome r of Inl e \<Rightarrow> Inl e | Inr res \<Rightarrow> Inr (settle res))\<rparr>))"

text \<open>
  \<^verbatim>\<open>blobToBase64Png\<close> returns a promise that has a resolve path only: it resolves in
  the handler of the packer's \<^verbatim>\<open>end\<close> event, with the prefix and the base64 text of
  the chunks received, and nothing rejects it. Packing is the work of external
  packages, the parameter \<open>pack\<close>: \<open>Some\<close> of the base64 text of the chunks when the
  packer emits \<^verbatim>\<open>end\<close>, \<open>None\<close> when it never does. The result \<open>None\<close> is the promise
  that stays pending.
\<close>

definition blobToBase64Png :: "(image \<Rightarrow> string option) \<Rightarrow> image \<Rightarrow> string option" where
  "blobToBase64Png pack img =
     (case pack img of
        None \<Rightarrow> None
      | Some result \<Rightarrow> Some (''data:image/png;base64,'' @ result))"

text \<open>What \<^verbatim>\<open>createStream\<close> resolves with: the base64 text for PNG, else the encoder's data.\<close>

datatype stream_data = Base64Png string | Encoded "nat list"

text \<open>
  \<^verbatim>\<open>p.then(f)\<close>: the handler runs only on resolution and the promise follows the one
  the handler returns; a rejection passes through.
\<close>

fun then_promise :: "'a promise \<Rightarrow> ('a stream_obj \<Rightarrow> 'b promise) \<Rightarrow> 'b promise" where
  "then_promise (Resolved res) f = f res"
| "then_promise (Rejected e) f = Rejected e"
| "then_promise Pending f = Pending"

text \<open>
  The parameter \<^verbatim>\<open>outputType\<close> of \<^verbatim>\<open>createStream\<close> has the default \<^verbatim>\<open>exp.Output.PNG\<close>,
  taken when the caller passes none (\<open>None\<close>).
\<close>

definition createStream ::
  "enums \<Rightarrow> native \<Rightarrow> (image \<Rightarrow> string option) \<Rightarrow> symbol \<Rightarrow> jsval \<Rightarrow> string option \<Rightarrow>
     stream_data promise run" where
  "createStream E symbology pack symbol barcodeData outputType_arg =
     (let outputType = (case outputType_arg of None \<Rightarrow> Output_PNG E | Some t \<Rightarrow> t);
          r = callManagedLibrary E symbology symbol barcodeData outputType (JBool True)
      in \<lparr>sym = sym r, calls = calls r,
           outcome =
             (case outcome r of
                Inl e \<Rightarrow> Inl e
              | Inr p \<Rightarrow>
                  Inr (then_promise p (\<lambda>res.
                    if outputType = Output_PNG E
                    then (let pngData = pngRender (data res) (width res) (height res)
                          in case blobToBase64Png pack pngData of
                               None \<Rightarrow> Pending
                             | Some base64Data \<Rightarrow>
                                 Resolved \<lparr>message = message res, code = code res,
                                           data = Base64Png base64Data,
                                           width = width res, height = height res\<rparr>)
                    else Resolved \<lparr>message = message res, code = code res,
                                   data = Encoded (data res),
                                   width = width res, height = height res\<rparr>)))\<rparr>)"

text \<open>
  Sample values of the absent enumerations and a sample encoder, for evaluating the
  model on concrete calls. The doc comment of \<^verbatim>\<open>callManagedLibrary\<close> names the output
  types \<^verbatim>\<open>'png'\<close>, \<^verbatim>\<open>'svg'\<close> and \<^verbatim>\<open>'eps'\<close>. The sample encoder accepts a symbology below
  200 with code 0 and refuses any other with code 5; the blank encoder answers every
  call with code 0 and an image without pixels. The sample packer emits no
  \<^verbatim>\<open>end\<close> for an image without pixels, and otherwise a text of one character for each
  pixel, row by row.
\<close>

definition sample_enums :: enums where
  "sample_enums = \<lparr>Encoding_DATA_MODE = JNum 0, Output_values = [''png'', ''svg'', ''eps''],
                   Output_PNG = ''png''\<rparr>"

definition sample_native :: native where
  "sample_native fnName args =
     (case args ! 1 of
        JNum n \<Rightarrow>
          (if n < 200
           then Inr \<lparr>res_code = 0, res_message = [], res_encodedData = [0, 0, 0, 255, 255, 255],
                     res_width = 2, res_height = 1\<rparr>
           else Inr \<lparr>res_code = 5, res_message = ''error'', res_encodedData = [],
                     res_width = 0, res_height = 0\<rparr>)
      | _ \<Rightarrow> Inl TypeError)"


definition sample_pack :: "image \<Rightarrow> string option" where
  "sample_pack img =
     (if img_width img = 0 \<or> img_height img = 0 then None
      else Some (concat (map (\<lambda>y. map (\<lambda>x.
             (case pixels img (x, y) of
                None \<Rightarrow> CHR ''?''
              | Some c \<Rightarrow> if red c = Some 0 then CHR ''0'' else CHR ''1''))
             [0..<img_width img]) [0..<img_height img])))"

section \<open>Properties of validateSymbol\<close>

lemma keys_no_hop: "''hasOwnProperty'' \<notin> set (keys E)"
  by (simp add: keys_def defaultSymbol_def)

lemma loop_throws:
  "hasOwnProperty s ''hasOwnProperty'' \<Longrightarrow> ks \<noteq> [] \<Longrightarrow> validateSymbol_loop E ks s = (s, Some TypeError)"
  by (cases ks) simp_all

lemma loop_merges:
  "\<not> hasOwnProperty s ''hasOwnProperty'' \<Longrightarrow> ''hasOwnProperty'' \<notin> set ks \<Longrightarrow>
   snd (validateSymbol_loop E ks s) = None \<and>
   (\<forall>k. fst (validateSymbol_loop E ks s) k =
      (if k \<in> set ks \<and> s k = None then Some (getProp (map_of (defaultSymbol E)) k) else s k))"
proof (induction ks arbitrary: s)
  case Nil
  then show ?case by simp
next
  case (Cons k ks)
  show ?case
  proof (cases "hasOwnProperty s k")
    case True
    with Cons.prems Cons.IH [of s] show ?thesis
      by (auto simp: hasOwnProperty_def)
  next
    case False
    let ?s = "s(k \<mapsto> getProp (map_of (defaultSymbol E)) k)"
    from Cons.prems have "\<not> hasOwnProperty ?s ''hasOwnProperty''"
      by (auto simp: hasOwnProperty_def)
    moreover from Cons.prems have "''hasOwnProperty'' \<notin> set ks" by simp
    ultimately have IH: "snd (validateSymbol_loop E ks ?s) = None \<and>
      (\<forall>k'. fst (validateSymbol_loop E ks ?s) k' =
         (if k' \<in> set ks \<and> ?s k' = None then Some (getProp (map_of (defaultSymbol E)) k') else ?s k'))"
      by (rule Cons.IH)
    from Cons.prems False have step: "validateSymbol_loop E (k # ks) s = validateSymbol_loop E ks ?s"
      by simp
    show ?thesis
      unfolding step using IH False by (auto simp: hasOwnProperty_def)
  qed
qed

lemma default_lookup: "k \<in> set (keys E) \<Longrightarrow> Some (getProp (map_of (defaultSymbol E)) k) = map_of (defaultSymbol E) k"
  by (auto simp: keys_def getProp_def split: option.splits dest: weak_map_of_SomeI simp: map_of_eq_None_iff)

lemma validateSymbol_eq:
  "validateSymbol E s =
     (if hasOwnProperty s ''hasOwnProperty'' then (s, Some TypeError)
      else (map_of (defaultSymbol E) ++ s, None))"
proof (cases "hasOwnProperty s ''hasOwnProperty''")
  case True
  have "keys E \<noteq> []" by (simp add: keys_def defaultSymbol_def)
  with True show ?thesis by (simp add: validateSymbol_def loop_throws)
next
  case False
  note m = loop_merges [OF False keys_no_hop, of E]
  have "fst (validateSymbol_loop E (keys E) s) = map_of (defaultSymbol E) ++ s"
  proof
    fix k
    have "k \<notin> set (keys E) \<Longrightarrow> map_of (defaultSymbol E) k = None"
      by (simp add: keys_def map_of_eq_None_iff)
    then show "fst (validateSymbol_loop E (keys E) s) k = (map_of (defaultSymbol E) ++ s) k"
      using default_lookup [of k E] m
      by (auto simp: map_add_def split: option.splits)
  qed
  with m False show ?thesis
    by (simp add: validateSymbol_def prod_eq_iff)
qed


lemma merge_twice: "(m ++ m) ++ s = m ++ s"
  by (rule ext) (simp add: map_add_def split: option.splits)

lemma keys_iff: "k \<in> set (keys E) \<longleftrightarrow> map_of (defaultSymbol E) k \<noteq> None"
  by (simp add: keys_def map_of_eq_None_iff)

lemma merged_no_hop:
  "\<not> hasOwnProperty s ''hasOwnProperty'' \<Longrightarrow>
   \<not> hasOwnProperty (map_of (defaultSymbol E) ++ s) ''hasOwnProperty''"
  using keys_no_hop [of E]
  by (simp add: hasOwnProperty_def map_add_def keys_def map_of_eq_None_iff split: option.splits)

lemma validateSymbol_twice:
  "validateSymbol E (fst (validateSymbol E s)) = validateSymbol E s"
  by (simp add: validateSymbol_eq merged_no_hop merge_twice)

text \<open>
  C9. A property the caller's struct already has keeps its value. The only properties
  \<^verbatim>\<open>validateSymbol\<close> assigns are keys of \<^verbatim>\<open>defaultSymbol\<close> that the struct lacks, each
  with its default value, and when the call returns normally every lacking default
  key is assigned. A second application to the resulting struct changes nothing.
\<close>

theorem validateSymbol_keeps_present_keys:
  "validateSymbol E s = (s', err) \<Longrightarrow>
     (\<forall>k. hasOwnProperty s k \<longrightarrow> s' k = s k) \<and>
     (\<forall>k. s' k \<noteq> s k \<longrightarrow>
        k \<in> set (keys E) \<and> \<not> hasOwnProperty s k \<and> s' k = map_of (defaultSymbol E) k) \<and>
     (err = None \<longrightarrow>
        (\<forall>k \<in> set (keys E). \<not> hasOwnProperty s k \<longrightarrow> s' k = map_of (defaultSymbol E) k)) \<and>
     validateSymbol E s' = (s', err)"
proof (intro conjI)
  assume v: "validateSymbol E s = (s', err)"
  from v show "\<forall>k. hasOwnProperty s k \<longrightarrow> s' k = s k"
    by (auto simp: validateSymbol_eq hasOwnProperty_def map_add_def split: if_splits)
  from v show "\<forall>k. s' k \<noteq> s k \<longrightarrow>
        k \<in> set (keys E) \<and> \<not> hasOwnProperty s k \<and> s' k = map_of (defaultSymbol E) k"
    by (auto simp: validateSymbol_eq hasOwnProperty_def map_add_def keys_iff
             split: if_splits option.splits)
  from v show "err = None \<longrightarrow>
        (\<forall>k \<in> set (keys E). \<not> hasOwnProperty s k \<longrightarrow> s' k = map_of (defaultSymbol E) k)"
    by (auto simp: validateSymbol_eq hasOwnProperty_def map_add_def split: if_splits)
  from v validateSymbol_twice [of E s] show "validateSymbol E s' = (s', err)"
    by simp
qed

lemma sample_validate:
  "validateSymbol sample_enums [''height'' \<mapsto> JNum 80] =
     (map_of (defaultSymbol sample_enums) ++ [''height'' \<mapsto> JNum 80], None)"
  by (simp add: validateSymbol_eq hasOwnProperty_def)

theorem validateSymbol_keeps_present_keys_witness:
  "hasOwnProperty [''height'' \<mapsto> JNum 80] ''height'' \<and>
   ''scale'' \<in> set (keys sample_enums) \<and>
   \<not> hasOwnProperty [''height'' \<mapsto> JNum 80] ''scale'' \<and>
   fst (validateSymbol sample_enums [''height'' \<mapsto> JNum 80]) ''height'' = Some (JNum 80) \<and>
   fst (validateSymbol sample_enums [''height'' \<mapsto> JNum 80]) ''scale'' = Some (JNum 1) \<and>
   validateSymbol sample_enums (fst (validateSymbol sample_enums [''height'' \<mapsto> JNum 80]))
     = validateSymbol sample_enums [''height'' \<mapsto> JNum 80]"
  using validateSymbol_keeps_present_keys [OF sample_validate]
  by (simp add: sample_validate hasOwnProperty_def keys_def defaultSymbol_def)

text \<open>
  C4, as stated, fails: \<^verbatim>\<open>validateSymbol\<close> writes into its argument. Applied to the
  empty struct it leaves a struct that is not empty.
\<close>

theorem validateSymbol_changes_argument:
  "fst (validateSymbol sample_enums Map.empty) \<noteq> Map.empty"
proof
  assume "fst (validateSymbol sample_enums Map.empty) = Map.empty"
  then have "fst (validateSymbol sample_enums Map.empty) ''height'' = None" by simp
  then show False
    by (simp add: validateSymbol_eq hasOwnProperty_def defaultSymbol_def)
qed

text \<open>
  C4, amended. \<^verbatim>\<open>validateSymbol\<close> mutates its argument in place, and only by adding
  default keys the struct lacks: the struct is left unchanged exactly when it already
  has every key of \<^verbatim>\<open>defaultSymbol\<close> (or when the call throws on a struct that
  shadows \<^verbatim>\<open>hasOwnProperty\<close>); a key outside \<^verbatim>\<open>defaultSymbol\<close> and a key the struct
  has are never touched.
\<close>

theorem validateSymbol_adds_missing_defaults_only:
  "(fst (validateSymbol E s) = s \<longleftrightarrow>
      hasOwnProperty s ''hasOwnProperty'' \<or> (\<forall>k \<in> set (keys E). hasOwnProperty s k)) \<and>
   (\<forall>k. k \<notin> set (keys E) \<longrightarrow> fst (validateSymbol E s) k = s k) \<and>
   (\<forall>k. hasOwnProperty s k \<longrightarrow> fst (validateSymbol E s) k = s k)"
proof (intro conjI)
  show "fst (validateSymbol E s) = s \<longleftrightarrow>
      hasOwnProperty s ''hasOwnProperty'' \<or> (\<forall>k \<in> set (keys E). hasOwnProperty s k)"
  proof (cases "hasOwnProperty s ''hasOwnProperty''")
    case True
    then show ?thesis by (simp add: validateSymbol_eq)
  next
    case False
    have "(map_of (defaultSymbol E) ++ s = s) \<longleftrightarrow> (\<forall>k \<in> set (keys E). hasOwnProperty s k)"
    proof
      assume eq: "map_of (defaultSymbol E) ++ s = s"
      show "\<forall>k \<in> set (keys E). hasOwnProperty s k"
      proof
        fix k assume k: "k \<in> set (keys E)"
        from eq have "(map_of (defaultSymbol E) ++ s) k = s k" by simp
        with k show "hasOwnProperty s k"
          by (cases "s k") (simp_all add: hasOwnProperty_def map_add_def keys_iff)
      qed
    next
      assume all: "\<forall>k \<in> set (keys E). hasOwnProperty s k"
      show "map_of (defaultSymbol E) ++ s = s"
      proof
        fix k
        show "(map_of (defaultSymbol E) ++ s) k = s k"
        proof (cases "s k")
          case None
          with all have "k \<notin> set (keys E)" by (auto simp: hasOwnProperty_def)
          with None show ?thesis by (simp add: map_add_def keys_iff)
        next
          case (Some v)
          then show ?thesis by (simp add: map_add_def)
        qed
      qed
    qed
    with False show ?thesis by (simp add: validateSymbol_eq)
  qed
  show "\<forall>k. k \<notin> set (keys E) \<longrightarrow> fst (validateSymbol E s) k = s k"
    by (auto simp: validateSymbol_eq map_add_def keys_iff split: option.splits)
  show "\<forall>k. hasOwnProperty s k \<longrightarrow> fst (validateSymbol E s) k = s k"
    by (auto simp: validateSymbol_eq hasOwnProperty_def map_add_def split: option.splits)
qed

theorem validateSymbol_adds_missing_defaults_only_witness:
  "fst (validateSymbol sample_enums (map_of (defaultSymbol sample_enums)))
     = map_of (defaultSymbol sample_enums) \<and>
   ''text'' \<notin> set (keys sample_enums) \<and>
   fst (validateSymbol sample_enums [''text'' \<mapsto> JStr ''A'']) ''text'' = Some (JStr ''A'')"
proof -
  have all: "\<forall>k \<in> set (keys sample_enums). hasOwnProperty (map_of (defaultSymbol sample_enums)) k"
    by (simp add: keys_def defaultSymbol_def hasOwnProperty_def)
  have notkey: "''text'' \<notin> set (keys sample_enums)"
    by (simp add: keys_def defaultSymbol_def)
  have has: "hasOwnProperty [''text'' \<mapsto> JStr ''A''] ''text''"
    by (simp add: hasOwnProperty_def)
  from validateSymbol_adds_missing_defaults_only [of sample_enums "map_of (defaultSymbol sample_enums)"] all
  have "fst (validateSymbol sample_enums (map_of (defaultSymbol sample_enums)))
     = map_of (defaultSymbol sample_enums)" by blast
  moreover from validateSymbol_adds_missing_defaults_only [of sample_enums "[''text'' \<mapsto> JStr ''A'']"] has
  have "fst (validateSymbol sample_enums [''text'' \<mapsto> JStr ''A'']) ''text'' = Some (JStr ''A'')"
    by simp
  ultimately show ?thesis using notkey by simp
qed

section \<open>Properties of createSymbology, callManagedLibrary and createStream\<close>

lemma getProp_merged:
  "getProp (m ++ s) k = (case s k of None \<Rightarrow> getProp m k | Some v \<Rightarrow> v)"
  by (simp add: getProp_def map_add_def split: option.splits)

lemma default_props:
  "getProp (map_of (defaultSymbol E)) ''height'' = JNum 50"
  "getProp (map_of (defaultSymbol E)) ''outputOptions'' = JNum (- 1)"
  "getProp (map_of (defaultSymbol E)) ''foregroundColor'' = JStr ''000000''"
  "getProp (map_of (defaultSymbol E)) ''backgroundColor'' = JStr ''ffffff''"
  "getProp (map_of (defaultSymbol E)) ''fileName'' = JStr ''out.bmp''"
  by (simp_all add: getProp_def defaultSymbol_def)

lemma createSymbology_throws:
  "hasOwnProperty s ''hasOwnProperty'' \<Longrightarrow>
   createSymbology E N s d fn = \<lparr>sym = s, calls = [], outcome = Inl TypeError\<rparr>"
  by (simp add: createSymbology_def validateSymbol_eq)




lemmas run_defs =
  callManagedLibrary_def createSymbology_def validateSymbol_eq set_stdout_options_def
  hasOwnProperty_def getProp_merged getProp_def defaultSymbol_def replace_png_bmp_def
  endsWith_def Let_def



text \<open>
  C8. For an output type outside the Output enumeration \<^verbatim>\<open>callManagedLibrary\<close> throws
  the Error before anything else happens, and so does \<^verbatim>\<open>createStream\<close>: no promise is
  returned, the symbol struct is untouched and the native function is not invoked.
\<close>

theorem invalid_outputType_throws:
  assumes "outputType \<notin> set (Output_values E)"
  shows "callManagedLibrary E N symbol d outputType isStdout =
           \<lparr>sym = symbol, calls = [],
            outcome = Inl (Error (''Invalid output type: '' @ outputType))\<rparr> \<and>
         createStream E N pack symbol d (Some outputType) =
           \<lparr>sym = symbol, calls = [],
            outcome = Inl (Error (''Invalid output type: '' @ outputType))\<rparr>"
  using assms by (simp add: callManagedLibrary_def createStream_def)

theorem invalid_outputType_throws_witness:
  "''gif'' \<notin> set (Output_values sample_enums) \<and>
   calls (createStream sample_enums sample_native sample_pack Map.empty (JStr ''HELLO'') (Some ''gif'')) = [] \<and>
   outcome (createStream sample_enums sample_native sample_pack Map.empty (JStr ''HELLO'') (Some ''gif''))
     = Inl (Error ''Invalid output type: gif'') \<and>
   outcome (callManagedLibrary sample_enums sample_native Map.empty (JStr ''HELLO'') ''gif'' JUndefined)
     = Inl (Error ''Invalid output type: gif'')"
proof -
  have h: "''gif'' \<notin> set (Output_values sample_enums)"
    by (simp add: sample_enums_def)
  show ?thesis
    using h invalid_outputType_throws [OF h, of sample_native Map.empty "JStr ''HELLO''" JUndefined sample_pack]
    by simp
qed

lemma createSymbology_args:
  assumes "args \<in> set (calls (createSymbology E N s d fn))"
  shows "length args = 18 \<and> args ! 0 = d \<and>
     args ! 2 = getProp (map_of (defaultSymbol E) ++ s) ''height'' \<and>
     args ! 5 = getProp (map_of (defaultSymbol E) ++ s) ''outputOptions'' \<and>
     args ! 6 = getProp (map_of (defaultSymbol E) ++ s) ''backgroundColor'' \<and>
     args ! 7 = getProp (map_of (defaultSymbol E) ++ s) ''foregroundColor''"
  using assms
  by (auto simp: createSymbology_def validateSymbol_eq Let_def split: if_splits jsval.splits)

lemma createSymbology_reaches:
  assumes "\<not> hasOwnProperty s ''hasOwnProperty''"
    and "getProp (map_of (defaultSymbol E) ++ s) ''fileName'' = JStr f"
  shows "\<exists>args. calls (createSymbology E N s d fn) = [args] \<and>
                 outcome (createSymbology E N s d fn) = N fn args"
  using assms by (simp add: createSymbology_def validateSymbol_eq Let_def)

lemma fileName_merged:
  "\<not> hasOwnProperty s ''fileName'' \<or> (\<exists>f. s ''fileName'' = Some (JStr f)) \<Longrightarrow>
   \<exists>f. getProp (map_of (defaultSymbol E) ++ s) ''fileName'' = JStr f"
  by (auto simp: getProp_merged default_props hasOwnProperty_def)

lemma fileName_stdout:
  "getProp (map_of (defaultSymbol E) ++ set_stdout_options s t) ''fileName'' = JStr (''out.'' @ t)"
  by (simp add: getProp_merged set_stdout_options_def Let_def)

lemma hop_stdout:
  "hasOwnProperty (set_stdout_options s t) ''hasOwnProperty'' = hasOwnProperty s ''hasOwnProperty''"
  by (simp add: hasOwnProperty_def set_stdout_options_def Let_def)

lemma callManagedLibrary_reaches:
  assumes "t \<in> set (Output_values E)" and "\<not> hasOwnProperty s ''hasOwnProperty''"
    and "t = Output_PNG E \<longrightarrow>
           \<not> hasOwnProperty s ''fileName'' \<or> (\<exists>f. s ''fileName'' = Some (JStr f))"
  shows "\<exists>args. calls (callManagedLibrary E N s d t i) = [args] \<and>
           outcome (callManagedLibrary E N s d t i) =
             (case N ''createStream'' args of Inl e \<Rightarrow> Inl e | Inr res \<Rightarrow> Inr (settle res))"
proof (cases "t = Output_PNG E")
  case True
  with assms(3) obtain f where "getProp (map_of (defaultSymbol E) ++ s) ''fileName'' = JStr f"
    using fileName_merged [of s E] by blast
  from createSymbology_reaches [OF assms(2) this, of N d "''createStream''"] True assms(1)
  show ?thesis by (auto simp: callManagedLibrary_def Let_def)
next
  case False
  from assms(2) have "\<not> hasOwnProperty (set_stdout_options s t) ''hasOwnProperty''"
    by (simp add: hop_stdout)
  from createSymbology_reaches [OF this fileName_stdout, of E N d "''createStream''"] False assms(1)
  show ?thesis by (auto simp: callManagedLibrary_def Let_def)
qed

lemma callManagedLibrary_args:
  assumes "args \<in> set (calls (callManagedLibrary E N s d t i))"
  shows "args \<in> set (calls (createSymbology E N
           (if t \<noteq> Output_PNG E then set_stdout_options s t else s) d ''createStream''))"
  using assms by (simp add: callManagedLibrary_def Let_def split: if_splits)

text \<open>
  C6. When the caller's struct has no \<^verbatim>\<open>height\<close>, every invocation of the encoder
  receives the default height 50 (third positional argument), and the encoder is
  invoked unless the wrapper itself throws (unknown output type, a struct that
  shadows \<^verbatim>\<open>hasOwnProperty\<close>, or a PNG call with a \<^verbatim>\<open>fileName\<close> that is not a string).
\<close>

theorem default_height_forwarded:
  assumes "\<not> hasOwnProperty symbol ''height''"
  shows "(\<forall>args \<in> set (calls (callManagedLibrary E N symbol d t i)). args ! 2 = JNum 50) \<and>
         (t \<in> set (Output_values E) \<and> \<not> hasOwnProperty symbol ''hasOwnProperty'' \<and>
          (t = Output_PNG E \<longrightarrow>
             \<not> hasOwnProperty symbol ''fileName'' \<or> (\<exists>f. symbol ''fileName'' = Some (JStr f)))
          \<longrightarrow> (\<exists>args. calls (callManagedLibrary E N symbol d t i) = [args]))"
proof
  show "\<forall>args \<in> set (calls (callManagedLibrary E N symbol d t i)). args ! 2 = JNum 50"
  proof
    fix args assume "args \<in> set (calls (callManagedLibrary E N symbol d t i))"
    from createSymbology_args [OF callManagedLibrary_args [OF this]]
    have "args ! 2 = getProp (map_of (defaultSymbol E) ++
            (if t \<noteq> Output_PNG E then set_stdout_options symbol t else symbol)) ''height''"
      by simp
    with assms show "args ! 2 = JNum 50"
      by (simp add: getProp_merged default_props hasOwnProperty_def set_stdout_options_def
            Let_def)
  qed
  show "t \<in> set (Output_values E) \<and> \<not> hasOwnProperty symbol ''hasOwnProperty'' \<and>
          (t = Output_PNG E \<longrightarrow>
             \<not> hasOwnProperty symbol ''fileName'' \<or> (\<exists>f. symbol ''fileName'' = Some (JStr f)))
          \<longrightarrow> (\<exists>args. calls (callManagedLibrary E N symbol d t i) = [args])"
    using callManagedLibrary_reaches [of t E symbol N d i] by blast
qed

theorem default_height_forwarded_witness:
  "\<not> hasOwnProperty [''symbology'' \<mapsto> JNum 8] ''height'' \<and>
   map (\<lambda>args. args ! 2)
     (calls (callManagedLibrary sample_enums sample_native [''symbology'' \<mapsto> JNum 8]
        (JStr ''HELLO'') ''png'' JUndefined)) = [JNum 50]"
proof -
  have h: "\<not> hasOwnProperty [''symbology'' \<mapsto> JNum 8] ''height''"
    by (simp add: hasOwnProperty_def)
  have c: "''png'' \<in> set (Output_values sample_enums) \<and>
           \<not> hasOwnProperty [''symbology'' \<mapsto> JNum 8] ''hasOwnProperty'' \<and>
           (''png'' = Output_PNG sample_enums \<longrightarrow>
              \<not> hasOwnProperty [''symbology'' \<mapsto> JNum 8] ''fileName'' \<or>
              (\<exists>f. [''symbology'' \<mapsto> JNum 8] ''fileName'' = Some (JStr f)))"
    by (simp add: hasOwnProperty_def sample_enums_def)
  from default_height_forwarded [OF h, of sample_enums sample_native "JStr ''HELLO''" "''png''" JUndefined] c
  show ?thesis using h by auto
qed

lemma round_double_exact: "\<bar>m\<bar> \<le> 2 ^ 53 \<Longrightarrow> round_double m = m"
  by (simp add: round_double_def)






text \<open>
  C5. A colour that is not six hex digits is to be refused before the encoder is
  invoked, and the doc comments of \<^verbatim>\<open>validateSymbol\<close> and \<^verbatim>\<open>createSymbology\<close> promise
  that the values of the struct are validated. The code tests no value: with
  \<^verbatim>\<open>foregroundColor: 'zzzzzz'\<close> nothing is raised, the encoder is invoked and receives
  the string as its eighth argument, and the call returns the promise settled from
  the encoder's answer.
\<close>

theorem malformed_color_reaches_encoder:
  "calls (callManagedLibrary sample_enums sample_native [''foregroundColor'' \<mapsto> JStr ''zzzzzz'']
            (JStr ''HELLO'') ''png'' JUndefined) =
     [[JStr ''HELLO'', JNum 20, JNum 50, JNum 0, JNum 0, JNum (- 1), JStr ''ffffff'',
       JStr ''zzzzzz'', JStr ''out.bmp'', JNum 1, JNum (- 1), JNum (- 1), JNum (- 1), JNum 1,
       JStr ''HELLO'', JNum 0, JNum 0, JStr []]] \<and>
   outcome (callManagedLibrary sample_enums sample_native [''foregroundColor'' \<mapsto> JStr ''zzzzzz'']
            (JStr ''HELLO'') ''png'' JUndefined) =
     Inr (Resolved \<lparr>message = [], code = 0, data = [0, 0, 0, 255, 255, 255],
                     width = 2, height = 1\<rparr>)"
  by (simp add: run_defs sample_enums_def sample_native_def settle_def)

lemma sym_createSymbology:
  "sym (createSymbology E N s d fn) = fst (validateSymbol E s)"
  by (simp add: createSymbology_def Let_def split: prod.splits option.splits jsval.splits)

lemma createSymbology_validated:
  "validateSymbol E s' = validateSymbol E s \<Longrightarrow>
   createSymbology E N s' d fn = createSymbology E N s d fn"
  by (simp add: createSymbology_def)

lemma createSymbology_twice:
  "createSymbology E N (sym (createSymbology E N s d fn)) d fn = createSymbology E N s d fn"
  by (rule createSymbology_validated) (simp add: sym_createSymbology validateSymbol_twice)

text \<open>For PNG output a second call with the symbol object the first call left is the same run.\<close>

lemma png_retry_same_run:
  "t = Output_PNG E \<Longrightarrow>
   callManagedLibrary E N (sym (callManagedLibrary E N symbol d t i)) d t i =
   callManagedLibrary E N symbol d t i"
  by (simp add: callManagedLibrary_def Let_def createSymbology_twice)

text \<open>
  C3. Two calls with the same symbol object, data and output type are to forward
  the same argument values. For an output type other than PNG they do not: the
  block that sets the flag 8 adds it to what the previous call stored in the
  caller's object, so with an empty struct and \<^verbatim>\<open>'svg'\<close> the first call forwards
  \<^verbatim>\<open>outputOptions\<close> 8 and the second call forwards 16.
\<close>

theorem retry_forwards_other_outputOptions:
  "map (\<lambda>args. args ! 5)
     (calls (callManagedLibrary sample_enums sample_native Map.empty
        (JStr ''HELLO'') ''svg'' JUndefined)) = [JNum 8] \<and>
   map (\<lambda>args. args ! 5)
     (calls (callManagedLibrary sample_enums sample_native
        (sym (callManagedLibrary sample_enums sample_native Map.empty
                (JStr ''HELLO'') ''svg'' JUndefined))
        (JStr ''HELLO'') ''svg'' JUndefined)) = [JNum 16] \<and>
   calls (callManagedLibrary sample_enums sample_native
        (sym (callManagedLibrary sample_enums sample_native Map.empty
                (JStr ''HELLO'') ''svg'' JUndefined))
        (JStr ''HELLO'') ''svg'' JUndefined) \<noteq>
   calls (callManagedLibrary sample_enums sample_native Map.empty
        (JStr ''HELLO'') ''svg'' JUndefined)"
proof -
  let ?r1 = "callManagedLibrary sample_enums sample_native Map.empty
        (JStr ''HELLO'') ''svg'' JUndefined"
  let ?r2 = "callManagedLibrary sample_enums sample_native (sym ?r1)
        (JStr ''HELLO'') ''svg'' JUndefined"
  have first: "map (\<lambda>args. args ! 5) (calls ?r1) = [JNum 8]"
    by (simp add: run_defs sample_enums_def)
  have "\<not> hasOwnProperty Map.empty ''hasOwnProperty''"
    by (simp add: hasOwnProperty_def)
  then have s1: "sym ?r1 = map_of (defaultSymbol sample_enums) ++
              set_stdout_options Map.empty ''svg''"
    by (simp add: callManagedLibrary_def sample_enums_def Let_def sym_createSymbology
          validateSymbol_eq hop_stdout)
  have second: "map (\<lambda>args. args ! 5) (calls ?r2) = [JNum 16]"
    unfolding s1 by (simp add: run_defs sample_enums_def round_double_exact)
  have "calls ?r2 \<noteq> calls ?r1"
  proof
    assume "calls ?r2 = calls ?r1"
    then have "map (\<lambda>args. args ! 5) (calls ?r2) = map (\<lambda>args. args ! 5) (calls ?r1)"
      by simp
    with first second show False by simp
  qed
  with first second show ?thesis by blast
qed

section \<open>Properties of pngRender\<close>

lemma pngRender_x_spec:
  "pngRender_x bitmap w y x (img, i) = (img', i') \<Longrightarrow>
     i' = i + 3 * (w - x) \<and>
     img_width img' = img_width img \<and> img_height img' = img_height img \<and>
     (\<forall>px py. pixels img' (px, py) =
        (if py = y \<and> x \<le> px \<and> px < w
         then Some \<lparr>red = at bitmap (i + 3 * (px - x)),
                    green = at bitmap (i + 3 * (px - x) + 1),
                    blue = at bitmap (i + 3 * (px - x) + 2), alpha = 200\<rparr>
         else pixels img (px, py)))"
proof (induction bitmap w y x "(img, i)" arbitrary: img i rule: pngRender_x.induct)
  case (1 bitmap w y x img i)
  show ?case
  proof (cases "x < w")
    case False
    then have "pngRender_x bitmap w y x (img, i) = (img, i)"
      by (subst pngRender_x.simps) simp
    with "1.prems" False show ?thesis by auto
  next
    case True
    let ?img = "setAt img x y \<lparr>red = at bitmap i, green = at bitmap (i + 1),
                  blue = at bitmap (i + 2), alpha = 200\<rparr>"
    from True have "pngRender_x bitmap w y x (img, i) = pngRender_x bitmap w y (x + 1) (?img, i + 3)"
      by (subst pngRender_x.simps) simp
    with "1.prems" have "pngRender_x bitmap w y (x + 1) (?img, i + 3) = (img', i')"
      by simp
    from "1.hyps" [OF True this] have
      IH: "i' = i + 3 + 3 * (w - (x + 1))"
          "img_width img' = img_width ?img" "img_height img' = img_height ?img"
          "\<And>px py. pixels img' (px, py) =
            (if py = y \<and> x + 1 \<le> px \<and> px < w
             then Some \<lparr>red = at bitmap (i + 3 + 3 * (px - (x + 1))),
                    green = at bitmap (i + 3 + 3 * (px - (x + 1)) + 1),
                    blue = at bitmap (i + 3 + 3 * (px - (x + 1)) + 2), alpha = 200\<rparr>
             else pixels ?img (px, py))"
      by auto
    have idx: "i' = i + 3 * (w - x)"
    proof -
      from True have "w - x = Suc (w - (x + 1))" by arith
      then show ?thesis using IH(1) by simp
    qed
    have pix: "\<forall>px py. pixels img' (px, py) =
        (if py = y \<and> x \<le> px \<and> px < w
         then Some \<lparr>red = at bitmap (i + 3 * (px - x)),
                    green = at bitmap (i + 3 * (px - x) + 1),
                    blue = at bitmap (i + 3 * (px - x) + 2), alpha = 200\<rparr>
         else pixels img (px, py))"
    proof (intro allI)
      fix px py
      show "pixels img' (px, py) =
        (if py = y \<and> x \<le> px \<and> px < w
         then Some \<lparr>red = at bitmap (i + 3 * (px - x)),
                    green = at bitmap (i + 3 * (px - x) + 1),
                    blue = at bitmap (i + 3 * (px - x) + 2), alpha = 200\<rparr>
         else pixels img (px, py))"
      proof (cases "py = y \<and> x + 1 \<le> px \<and> px < w")
        case True
        then have "x + 1 \<le> px" by simp
        then have "px - x = Suc (px - (x + 1))" by arith
        with True IH(4) [of px py] show ?thesis by (simp add: algebra_simps)
      next
        case False
        from IH(4) [of px py] have a: "pixels img' (px, py) = pixels ?img (px, py)"
          by (simp only: False if_False)
        show ?thesis
        proof (cases "py = y \<and> px = x")
          case True
          with a \<open>x < w\<close> show ?thesis by (simp add: setAt_def)
        next
          case False
          with a \<open>\<not> (py = y \<and> x + 1 \<le> px \<and> px < w)\<close> show ?thesis
            by (auto simp: setAt_def)
        qed
      qed
    qed
    from IH(2,3) have dims: "img_width img' = img_width img \<and> img_height img' = img_height img"
      by (simp add: setAt_def)
    from idx pix dims show ?thesis by blast
  qed
qed

lemma pngRender_y_spec:
  "pngRender_y bitmap w h y (img, i) = (img', i') \<Longrightarrow>
     i' = i + 3 * w * (h - y) \<and>
     img_width img' = img_width img \<and> img_height img' = img_height img \<and>
     (\<forall>px py. pixels img' (px, py) =
        (if y \<le> py \<and> py < h \<and> px < w
         then Some \<lparr>red = at bitmap (i + 3 * ((py - y) * w + px)),
                    green = at bitmap (i + 3 * ((py - y) * w + px) + 1),
                    blue = at bitmap (i + 3 * ((py - y) * w + px) + 2), alpha = 200\<rparr>
         else pixels img (px, py)))"
proof (induction bitmap w h y "(img, i)" arbitrary: img i rule: pngRender_y.induct)
  case (1 bitmap w h y img i)
  show ?case
  proof (cases "y < h")
    case False
    then have "pngRender_y bitmap w h y (img, i) = (img, i)"
      by (subst pngRender_y.simps) simp
    with "1.prems" False show ?thesis by auto
  next
    case True
    obtain img1 i1 where row: "pngRender_x bitmap w y 0 (img, i) = (img1, i1)"
      by (cases "pngRender_x bitmap w y 0 (img, i)")
    note r = pngRender_x_spec [OF row]
    from True have "pngRender_y bitmap w h y (img, i) =
        pngRender_y bitmap w h (y + 1) (pngRender_x bitmap w y 0 (img, i))"
      by (subst pngRender_y.simps) simp
    with "1.prems" row have rest: "pngRender_y bitmap w h (y + 1) (img1, i1) = (img', i')"
      by simp
    from "1.hyps" [OF True row rest] have
      IH: "i' = i1 + 3 * w * (h - (y + 1))"
          "img_width img' = img_width img1" "img_height img' = img_height img1"
          "\<And>px py. pixels img' (px, py) =
            (if y + 1 \<le> py \<and> py < h \<and> px < w
             then Some \<lparr>red = at bitmap (i1 + 3 * ((py - (y + 1)) * w + px)),
                    green = at bitmap (i1 + 3 * ((py - (y + 1)) * w + px) + 1),
                    blue = at bitmap (i1 + 3 * ((py - (y + 1)) * w + px) + 2), alpha = 200\<rparr>
             else pixels img1 (px, py))"
      by auto
    from r have i1: "i1 = i + 3 * w" by simp
    have idx: "i' = i + 3 * w * (h - y)"
    proof -
      from True have "h - y = Suc (h - (y + 1))" by arith
      then show ?thesis using IH(1) i1 by simp
    qed
    have pix: "\<forall>px py. pixels img' (px, py) =
        (if y \<le> py \<and> py < h \<and> px < w
         then Some \<lparr>red = at bitmap (i + 3 * ((py - y) * w + px)),
                    green = at bitmap (i + 3 * ((py - y) * w + px) + 1),
                    blue = at bitmap (i + 3 * ((py - y) * w + px) + 2), alpha = 200\<rparr>
         else pixels img (px, py))"
    proof (intro allI)
      fix px py
      show "pixels img' (px, py) =
        (if y \<le> py \<and> py < h \<and> px < w
         then Some \<lparr>red = at bitmap (i + 3 * ((py - y) * w + px)),
                    green = at bitmap (i + 3 * ((py - y) * w + px) + 1),
                    blue = at bitmap (i + 3 * ((py - y) * w + px) + 2), alpha = 200\<rparr>
         else pixels img (px, py))"
      proof (cases "y + 1 \<le> py \<and> py < h \<and> px < w")
        case True
        then have "y + 1 \<le> py" by simp
        then have "py - y = Suc (py - (y + 1))" by arith
        with True IH(4) [of px py] i1 show ?thesis by (simp add: algebra_simps)
      next
        case False
        from IH(4) [of px py] have a: "pixels img' (px, py) = pixels img1 (px, py)"
          by (simp only: False if_False)
        from r have b: "pixels img1 (px, py) =
          (if py = y \<and> 0 \<le> px \<and> px < w
           then Some \<lparr>red = at bitmap (i + 3 * (px - 0)),
                    green = at bitmap (i + 3 * (px - 0) + 1),
                    blue = at bitmap (i + 3 * (px - 0) + 2), alpha = 200\<rparr>
           else pixels img (px, py))" by blast
        show ?thesis
        proof (cases "py = y \<and> px < w")
          case True
          with a b \<open>y < h\<close> show ?thesis by simp
        next
          case False
          with a b \<open>\<not> (y + 1 \<le> py \<and> py < h \<and> px < w)\<close> show ?thesis by auto
        qed
      qed
    qed
    from r IH(2,3) have dims: "img_width img' = img_width img \<and> img_height img' = img_height img"
      by simp
    from idx pix dims show ?thesis by blast
  qed
qed

lemma pngRender_pixels:
  "pixels (pngRender bitmap w h) (x, y) =
     (if x < w \<and> y < h
      then Some \<lparr>red = at bitmap (3 * (y * w + x)),
                 green = at bitmap (3 * (y * w + x) + 1),
                 blue = at bitmap (3 * (y * w + x) + 2), alpha = 200\<rparr>
      else None)"
proof -
  obtain img' i' where run: "pngRender_y bitmap w h 0 (createImage w h, 0) = (img', i')"
    by (cases "pngRender_y bitmap w h 0 (createImage w h, 0)")
  from pngRender_y_spec [OF run] run show ?thesis
    by (simp add: pngRender_def pngRender_run_def createImage_def)
qed

lemma pngRender_index:
  "snd (pngRender_run bitmap w h) = 3 * w * h"
proof -
  obtain img' i' where run: "pngRender_y bitmap w h 0 (createImage w h, 0) = (img', i')"
    by (cases "pngRender_y bitmap w h 0 (createImage w h, 0)")
  from pngRender_y_spec [OF run] run show ?thesis
    by (simp add: pngRender_run_def)
qed



lemma byte_of_pixel:
  assumes "(j::nat) < 3 * w * h"
  shows "(j div 3) mod w < w \<and> (j div 3) div w < h \<and>
         3 * ((j div 3) div w * w + (j div 3) mod w) + j mod 3 = j"
proof -
  from assms have w: "0 < w" by (cases w) simp_all
  from assms have "j div 3 < w * h" by (simp add: less_mult_imp_div_less mult.commute mult.left_commute)
  then have "(j div 3) div w < h"
    by (simp add: less_mult_imp_div_less mult.commute)
  moreover from w have "(j div 3) mod w < w" by simp
  moreover have "3 * ((j div 3) div w * w + (j div 3) mod w) + j mod 3 = j" by simp
  ultimately show ?thesis by simp
qed

text \<open>
  C7. \<^verbatim>\<open>pngRender\<close> reads the bitmap as rows of pixels of three bytes: the pixel at
  \<open>(x, y)\<close> inside the image gets its red, green and blue from the bitmap at
  \<open>3 * (y * w + x)\<close> and the two places after it; the read index ends at
  \<open>3 * w * h\<close>; and every place of the bitmap below that bound is the component of a
  pixel of the image.
\<close>

theorem pngRender_row_major_rgb:
  "(x < w \<and> y < h \<longrightarrow>
      pixels (pngRender bitmap w h) (x, y) =
        Some \<lparr>red = at bitmap (3 * (y * w + x)),
               green = at bitmap (3 * (y * w + x) + 1),
               blue = at bitmap (3 * (y * w + x) + 2), alpha = 200\<rparr>) \<and>
   snd (pngRender_run bitmap w h) = 3 * w * h \<and>
   (\<forall>j < 3 * w * h. \<exists>c.
      pixels (pngRender bitmap w h) ((j div 3) mod w, (j div 3) div w) = Some c \<and>
      [red c, green c, blue c] ! (j mod 3) = at bitmap j)"
proof (intro conjI allI impI)
  assume "x < w \<and> y < h"
  then show "pixels (pngRender bitmap w h) (x, y) =
        Some \<lparr>red = at bitmap (3 * (y * w + x)),
               green = at bitmap (3 * (y * w + x) + 1),
               blue = at bitmap (3 * (y * w + x) + 2), alpha = 200\<rparr>"
    by (simp add: pngRender_pixels)
next
  show "snd (pngRender_run bitmap w h) = 3 * w * h"
    by (rule pngRender_index)
next
  fix j assume j: "j < 3 * w * h"
  define k where "k = 3 * ((j div 3) div w * w + (j div 3) mod w)"
  define c where "c = \<lparr>red = at bitmap k, green = at bitmap (k + 1),
                          blue = at bitmap (k + 2), alpha = 200\<rparr>"
  note b = byte_of_pixel [OF j]
  then have p: "pixels (pngRender bitmap w h) ((j div 3) mod w, (j div 3) div w) = Some c"
    unfolding c_def k_def by (simp add: pngRender_pixels)
  from b have kj: "k + j mod 3 = j" unfolding k_def by blast
  have "j mod 3 = 0 \<or> j mod 3 = 1 \<or> j mod 3 = 2" by arith
  then have "[red c, green c, blue c] ! (j mod 3) = at bitmap (k + j mod 3)"
    by (elim disjE) (simp_all add: c_def)
  with kj have "[red c, green c, blue c] ! (j mod 3) = at bitmap j" by simp
  with p show "\<exists>c. pixels (pngRender bitmap w h) ((j div 3) mod w, (j div 3) div w) = Some c \<and>
      [red c, green c, blue c] ! (j mod 3) = at bitmap j"
    by blast
qed

theorem pngRender_row_major_rgb_witness:
  "pixels (pngRender [1, 2, 3, 4, 5, 6, 7, 8, 9, 10, 11, 12] 2 2) (1, 1) =
     Some \<lparr>red = Some 10, green = Some 11, blue = Some 12, alpha = 200\<rparr> \<and>
   snd (pngRender_run [1, 2, 3, 4, 5, 6, 7, 8, 9, 10, 11, 12] 2 2) = 12 \<and>
   (\<exists>c. pixels (pngRender [1, 2, 3, 4, 5, 6, 7, 8, 9, 10, 11, 12] 2 2) (0, 1) = Some c \<and>
        [red c, green c, blue c] ! 1 = Some 8)"
proof -
  note t = pngRender_row_major_rgb [of 1 2 1 2 "[1, 2, 3, 4, 5, 6, 7, 8, 9, 10, 11, 12]"]
  have "(7::nat) < 3 * 2 * 2" by simp
  with t have "\<exists>c. pixels (pngRender [1, 2, 3, 4, 5, 6, 7, 8, 9, 10, 11, 12] 2 2)
            ((7 div 3) mod 2, (7 div 3) div 2) = Some c \<and>
        [red c, green c, blue c] ! (7 mod 3) = at [1, 2, 3, 4, 5, 6, 7, 8, 9, 10, 11, 12] 7"
    by blast
  then have "\<exists>c. pixels (pngRender [1, 2, 3, 4, 5, 6, 7, 8, 9, 10, 11, 12] 2 2) (0, 1) = Some c \<and>
        [red c, green c, blue c] ! 1 = Some 8"
    by (simp add: at_def)
  with t show ?thesis by (simp add: at_def)
qed

text \<open>
  C10. Every pixel inside the image is set by \<^verbatim>\<open>pngRender\<close>, and every pixel it sets
  has alpha 200, whatever the bitmap holds.
\<close>

theorem pngRender_alpha_200:
  "(x < w \<and> y < h \<longrightarrow>
      (\<exists>c. pixels (pngRender bitmap w h) (x, y) = Some c \<and> alpha c = 200)) \<and>
   (\<forall>p c. pixels (pngRender bitmap w h) p = Some c \<longrightarrow> alpha c = 200)"
proof (intro conjI allI impI)
  assume "x < w \<and> y < h"
  then show "\<exists>c. pixels (pngRender bitmap w h) (x, y) = Some c \<and> alpha c = 200"
    by (simp add: pngRender_pixels)
next
  fix p c assume "pixels (pngRender bitmap w h) p = Some c"
  then show "alpha c = 200"
    by (cases p) (auto simp: pngRender_pixels split: if_splits)
qed

theorem pngRender_alpha_200_witness:
  "(\<exists>c. pixels (pngRender [255, 255, 255, 0, 0, 0] 2 1) (1, 0) = Some c \<and> alpha c = 200) \<and>
   (\<exists>c. pixels (pngRender [] 1 1) (0, 0) = Some c \<and> alpha c = 200)"
  using pngRender_alpha_200 [of 1 2 0 1 "[255, 255, 255, 0, 0, 0]"]
        pngRender_alpha_200 [of 0 1 0 1 "[]"]
  by simp

section \<open>Properties of the returned promise\<close>





end
